theory Spec2Isabelle
  imports Complex_Main "HOL-Library.Word"
begin

section \<open>The byte dumper \<^verbatim>\<open>scripts/img_to_bytes.py\<close>\<close>

text \<open>
  The script is one function, \<^verbatim>\<open>main\<close>, run as \<^verbatim>\<open>exit(main())\<close>. It reads
  \<^verbatim>\<open>sys.argv\<close>, asks \<^verbatim>\<open>os.path.exists\<close>, calls the Pillow library
  (\<^verbatim>\<open>Image.open\<close>, \<^verbatim>\<open>tobytes\<close>) and prints. The model passes the argument
  list and the outside world explicitly and returns what the run did: the effects in the
  order they happened, and either the returned integer or the exception that left
  \<^verbatim>\<open>main\<close> uncaught.
\<close>

subsection \<open>Values\<close>

type_synonym byte = "8 word"

text \<open>
  The exceptions that can leave \<^verbatim>\<open>main\<close>: \<^verbatim>\<open>sys.argv[0]\<close> on an empty
  argument list, \<^verbatim>\<open>float\<close> on an integer beyond the range of a double, and whatever
  the image library or the operating system raises while opening and decoding.
\<close>

datatype exn =
    IndexError
  | OverflowError
  | UnidentifiedImageError
  | IsADirectoryError
  | PermissionError
  | FileNotFoundError
  | OSError

subsection \<open>The outside world\<close>

text \<open>
  The file system and the image library are not part of the repository; the run takes them
  as a parameter. \<open>path_exists\<close> is \<^verbatim>\<open>os.path.exists\<close> (it answers
  \<^verbatim>\<open>False\<close> rather than raising), \<open>Image_open\<close> is \<^verbatim>\<open>PIL.Image.open\<close>
  and \<open>tobytes\<close> is the method \<^verbatim>\<open>Image.tobytes\<close>; both either raise or return.
  The image handle is opaque, a type parameter.
\<close>

record 'img world =
  path_exists :: "string \<Rightarrow> bool"
  Image_open :: "string \<Rightarrow> exn + 'img"
  tobytes :: "'img \<Rightarrow> exn + byte list"

text \<open>The effects of a run, in the order they happen.\<close>

datatype event =
    EvExists string
  | EvOpen string
  | EvTobytes
  | EvPrint string

record run =
  trace :: "event list"
  result :: "exn + int"

subsection \<open>Text\<close>

definition newline :: char where
  "newline = CHR 0x0A"

text \<open>\<^verbatim>\<open>str(n)\<close> of a non-negative integer: its decimal digits.\<close>

fun str_nat :: "nat \<Rightarrow> string" where
  "str_nat n = (if n < 10 then [''0123456789'' ! n]
                else str_nat (n div 10) @ [''0123456789'' ! (n mod 10)])"

declare str_nat.simps [simp del]

subsection \<open>\<^verbatim>\<open>float(i)\<close>\<close>

text \<open>
  \<^verbatim>\<open>float\<close> of a Python integer gives the nearest double, ties to the even
  significand, and raises \<^verbatim>\<open>OverflowError\<close> when that is \<open>2 ^ 1024\<close> or more. A
  double has 53 significant bits, so an integer of at most 53 bits is its own double.
  A float is modelled by the real number it denotes.
\<close>

fun bit_length :: "nat \<Rightarrow> nat" where
  "bit_length n = (if n = 0 then 0 else Suc (bit_length (n div 2)))"

declare bit_length.simps [simp del]

definition round_half_even :: "nat \<Rightarrow> nat \<Rightarrow> nat" where
  "round_half_even n k =
     (let q = n div 2 ^ k; r = n mod 2 ^ k
      in if k = 0 then n
         else if 2 ^ (k - 1) < r \<or> (r = 2 ^ (k - 1) \<and> odd q) then (q + 1) * 2 ^ k
         else q * 2 ^ k)"

definition py_float :: "int \<Rightarrow> exn + real" where
  "py_float i =
     (let n = nat \<bar>i\<bar>;
          m = round_half_even n (bit_length n - 53)
      in if 2 ^ 1024 \<le> m then Inl OverflowError
         else Inr (if i < 0 then - real m else real m))"

text \<open>
  \<^verbatim>\<open>repr\<close> of a float that is a whole number below \<open>10 ^ 16\<close> in magnitude: the
  digits of the whole number, then \<^verbatim>\<open>.0\<close>. Outside that range Python prints a fraction
  or an exponent, which this function does not model; \<open>short_integral\<close> is its domain.
\<close>

definition short_integral :: "real \<Rightarrow> bool" where
  "short_integral x = (real_of_int \<lfloor>x\<rfloor> = x \<and> \<bar>x\<bar> < 10 ^ 16)"

definition float_repr :: "real \<Rightarrow> string" where
  "float_repr x = (if x < 0 then ''-'' else '''') @ str_nat (nat \<lfloor>\<bar>x\<bar>\<rfloor>) @ ''.0''"

text \<open>\<^verbatim>\<open>', '.join(items)\<close> and the \<^verbatim>\<open>str\<close> of a list of floats.\<close>

fun join_comma :: "string list \<Rightarrow> string" where
  "join_comma [] = ''''"
| "join_comma [s] = s"
| "join_comma (s # t # ss) = s @ '', '' @ join_comma (t # ss)"

definition list_repr :: "real list \<Rightarrow> string" where
  "list_repr xs = ''['' @ join_comma (map float_repr xs) @ '']''"

text \<open>
  The number of items of a printed list literal whose items contain no comma: none in
  \<^verbatim>\<open>[]\<close>, otherwise one more than there are commas.
\<close>

definition numbers_in :: "string \<Rightarrow> nat" where
  "numbers_in line = (if line = ''[]'' then 0 else Suc (count_list line (CHR '','')))"

subsection \<open>The list comprehension\<close>

text \<open>
  \<^verbatim>\<open>[float(i) for i in image.tobytes()]\<close>: iterating a \<^verbatim>\<open>bytes\<close> object yields
  the integers \<open>0..255\<close>; the first \<^verbatim>\<open>float\<close> that raises ends the comprehension.
\<close>

fun float_list :: "byte list \<Rightarrow> exn + real list" where
  "float_list [] = Inr []"
| "float_list (b # bs) =
     (case py_float (uint b) of
        Inl e \<Rightarrow> Inl e
      | Inr x \<Rightarrow> (case float_list bs of Inl e \<Rightarrow> Inl e | Inr xs \<Rightarrow> Inr (x # xs)))"

subsection \<open>\<^verbatim>\<open>main\<close>\<close>

definition usage_msg :: "string \<Rightarrow> string" where
  "usage_msg prog = ''Usage: '' @ prog @ '' <image>''"

definition not_found_msg :: "string \<Rightarrow> string" where
  "not_found_msg path = ''Error: '' @ path @ '' not found.''"

definition main :: "'img world \<Rightarrow> string list \<Rightarrow> run" where
  "main w argv =
     (if length argv \<noteq> 2 then
        (case argv of
           [] \<Rightarrow> \<lparr>trace = [], result = Inl IndexError\<rparr>
         | prog # _ \<Rightarrow> \<lparr>trace = [EvPrint (usage_msg prog)], result = Inr 1\<rparr>)
      else
        let path = argv ! 1 in
        if \<not> path_exists w path then
          \<lparr>trace = [EvExists path, EvPrint (not_found_msg path)], result = Inr 1\<rparr>
        else
          (case Image_open w path of
             Inl e \<Rightarrow> \<lparr>trace = [EvExists path, EvOpen path], result = Inl e\<rparr>
           | Inr img \<Rightarrow>
               (case tobytes w img of
                  Inl e \<Rightarrow> \<lparr>trace = [EvExists path, EvOpen path, EvTobytes], result = Inl e\<rparr>
                | Inr bs \<Rightarrow>
                    (case float_list bs of
                       Inl e \<Rightarrow>
                         \<lparr>trace = [EvExists path, EvOpen path, EvTobytes], result = Inl e\<rparr>
                     | Inr xs \<Rightarrow>
                         \<lparr>trace = [EvExists path, EvOpen path, EvTobytes, EvPrint (list_repr xs)],
                          result = Inr 0\<rparr>))))"

subsection \<open>The process\<close>

text \<open>
  \<^verbatim>\<open>print\<close> writes its argument and a newline to standard output, which the model
  takes to be writable. The script ends
  with \<^verbatim>\<open>exit(main())\<close>: the returned integer is the exit status, and an exception
  that nothing catches makes the interpreter write a traceback to standard error and exit
  with status 1.
\<close>

fun printed :: "event \<Rightarrow> string" where
  "printed (EvPrint s) = s @ [newline]"
| "printed _ = ''''"

definition stdout :: "run \<Rightarrow> string" where
  "stdout r = concat (map printed (trace r))"

definition exit_status :: "run \<Rightarrow> int" where
  "exit_status r = (case result r of Inl e \<Rightarrow> 1 | Inr rc \<Rightarrow> rc)"

subsection \<open>The order of the steps\<close>




fun is_decode :: "event \<Rightarrow> bool" where
  "is_decode (EvOpen p) = True"
| "is_decode EvTobytes = True"
| "is_decode _ = False"

definition decode_attempted :: "run \<Rightarrow> bool" where
  "decode_attempted r = list_ex is_decode (trace r)"

subsection \<open>A small world to run the script in\<close>

text \<open>
  Five paths exist: a 1x1 greyscale image whose pixel is 128, a 2x1 RGB image, a file whose
  pixel data is cut short, a text file and a directory. The image handle is the name of
  the opened file.
\<close>

definition sample_world :: "string world" where
  "sample_world =
     \<lparr>path_exists = (\<lambda>p. p \<in> set [''gray.png'', ''rgb.png'', ''cut.png'', ''notes.txt'', ''dir'']),
      Image_open = (\<lambda>p.
         if p \<in> set [''gray.png'', ''rgb.png'', ''cut.png''] then Inr p
         else if p = ''notes.txt'' then Inl UnidentifiedImageError
         else if p = ''dir'' then Inl IsADirectoryError
         else Inl FileNotFoundError),
      tobytes = (\<lambda>h.
         if h = ''gray.png'' then Inr [128]
         else if h = ''rgb.png'' then Inr [255, 0, 200, 1, 2, 3]
         else Inl OSError)\<rparr>"

text \<open>
  A second world: the same content at \<^verbatim>\<open>gray.png\<close>, everything else different.
\<close>

definition other_world :: "string world" where
  "other_world =
     \<lparr>path_exists = (\<lambda>p. p \<in> set [''gray.png'', ''new.png'']),
      Image_open = (\<lambda>p. if p = ''gray.png'' then Inr p else Inl PermissionError),
      tobytes = (\<lambda>h. if h = ''gray.png'' then Inr [128] else Inr [7, 7])\<rparr>"

subsection \<open>Reading a printed list back\<close>

text \<open>
  What a reader of the output expects, written without the functions that produce it: a
  list literal is \<^verbatim>\<open>[]\<close>, or an opening bracket, items separated by a comma and a
  space, and a closing bracket; an item is a decimal numeral without a leading zero
  followed by \<^verbatim>\<open>.0\<close>; a digit is a character with an ASCII code from 48 to 57.
  \<open>read_list\<close> gives the whole numbers of such a line in order, and nothing for any
  other text.
\<close>

definition digit_value :: "char \<Rightarrow> nat option" where
  "digit_value c =
     (let code = (of_char c :: nat)
      in if 48 \<le> code \<and> code \<le> 57 then Some (code - 48) else None)"

fun read_digits :: "nat \<Rightarrow> string \<Rightarrow> nat option" where
  "read_digits a [] = Some a"
| "read_digits a (c # cs) =
     (case digit_value c of None \<Rightarrow> None | Some d \<Rightarrow> read_digits (10 * a + d) cs)"

definition read_nat :: "string \<Rightarrow> nat option" where
  "read_nat s =
     (if s = [] \<or> (hd s = CHR ''0'' \<and> tl s \<noteq> []) then None else read_digits 0 s)"

definition read_item :: "string \<Rightarrow> nat option" where
  "read_item s =
     (if 2 \<le> length s \<and> drop (length s - 2) s = ''.0''
      then read_nat (take (length s - 2) s) else None)"

fun split_items :: "string \<Rightarrow> string \<Rightarrow> string list" where
  "split_items acc [] = [acc]"
| "split_items acc [c] = [acc @ [c]]"
| "split_items acc (c # d # cs) =
     (if c = CHR '','' \<and> d = CHR '' '' then acc # split_items [] cs
      else split_items (acc @ [c]) (d # cs))"

fun read_all :: "string list \<Rightarrow> nat list option" where
  "read_all [] = Some []"
| "read_all (s # ss) =
     (case read_item s of
        None \<Rightarrow> None
      | Some n \<Rightarrow> (case read_all ss of None \<Rightarrow> None | Some ns \<Rightarrow> Some (n # ns)))"

definition read_list :: "string \<Rightarrow> nat list option" where
  "read_list s =
     (if s = ''[]'' then Some []
      else if 2 \<le> length s \<and> hd s = CHR ''['' \<and> last s = CHR '']''
      then read_all (split_items [] (butlast (tl s)))
      else None)"

subsection \<open>Images with a size\<close>

text \<open>
  An image handle that carries what the library reports about the image: its mode, its
  width and height in pixels, and its number of channels. The world below holds three
  images as Pillow decodes them: a 2x1 RGB image, one byte per channel per pixel; an 8x1
  image of mode \<^verbatim>\<open>1\<close>, which Pillow stores eight pixels to the byte; and a 1x1 image
  of mode \<^verbatim>\<open>I;16\<close>, which it stores two bytes to the pixel.
\<close>

record pil_image =
  im_mode :: string
  im_width :: nat
  im_height :: nat
  im_bands :: nat

definition rgb_image :: pil_image where
  "rgb_image = \<lparr>im_mode = ''RGB'', im_width = 2, im_height = 1, im_bands = 3\<rparr>"

definition bw_image :: pil_image where
  "bw_image = \<lparr>im_mode = ''1'', im_width = 8, im_height = 1, im_bands = 1\<rparr>"

definition deep_image :: pil_image where
  "deep_image = \<lparr>im_mode = ''I;16'', im_width = 1, im_height = 1, im_bands = 1\<rparr>"

definition pillow_world :: "pil_image world" where
  "pillow_world =
     \<lparr>path_exists = (\<lambda>p. p \<in> set [''rgb.png'', ''bw.png'', ''deep.png'']),
      Image_open = (\<lambda>p.
         if p = ''rgb.png'' then Inr rgb_image
         else if p = ''bw.png'' then Inr bw_image
         else if p = ''deep.png'' then Inr deep_image
         else Inl FileNotFoundError),
      tobytes = (\<lambda>im.
         if im_mode im = ''RGB'' then Inr [255, 0, 200, 1, 2, 3]
         else if im_mode im = ''1'' then Inr [255]
         else if im_mode im = ''I;16'' then Inr [52, 18]
         else Inl OSError)\<rparr>"

section \<open>Facts about the parts\<close>

subsection \<open>\<^verbatim>\<open>float\<close> on small integers\<close>

lemma bit_length_le: "n < 2 ^ k \<Longrightarrow> bit_length n \<le> k"
proof (induction k arbitrary: n)
  case 0
  then show ?case by (simp add: bit_length.simps)
next
  case (Suc k)
  show ?case
  proof (cases "n = 0")
    case True
    then show ?thesis by (simp add: bit_length.simps)
  next
    case False
    from Suc.prems have "n div 2 < 2 ^ k" by simp
    then have "bit_length (n div 2) \<le> k" by (rule Suc.IH)
    with False show ?thesis by (subst bit_length.simps) simp
  qed
qed

lemma round_half_even_small: "n < 2 ^ 53 \<Longrightarrow> round_half_even n (bit_length n - 53) = n"
  using bit_length_le [of n 53] by (simp add: round_half_even_def)

lemma py_float_exact:
  assumes "0 \<le> i" "i < 2 ^ 53"
  shows "py_float i = Inr (real_of_int i)"
proof -
  have n: "nat \<bar>i\<bar> < 2 ^ 53" using assms by (simp add: nat_less_iff)
  have r: "round_half_even (nat \<bar>i\<bar>) (bit_length (nat \<bar>i\<bar>) - 53) = nat \<bar>i\<bar>"
    by (rule round_half_even_small [OF n])
  have "(2::nat) ^ 53 < 2 ^ 1024" by (rule power_strict_increasing) simp_all
  with n have big: "\<not> (2::nat) ^ 1024 \<le> nat \<bar>i\<bar>" by linarith
  have pos: "\<not> i < 0" using assms by simp
  have conv: "real (nat \<bar>i\<bar>) = real_of_int i" using assms by simp
  show ?thesis
    unfolding py_float_def Let_def r
    by (simp only: big pos conv if_False)
qed

lemma py_float_byte: "py_float (uint (b::byte)) = Inr (real (unat b))"
proof -
  have "uint b < 2 ^ 8" using uint_bounded [of b] by simp
  also have "(2::int) ^ 8 < 2 ^ 53" by simp
  finally have "uint b < 2 ^ 53" .
  then have "py_float (uint b) = Inr (real_of_int (uint b))"
    by (intro py_float_exact) simp_all
  then show ?thesis by simp
qed

lemma float_list_bytes: "float_list bs = Inr (map (\<lambda>b. real (unat b)) bs)"
  by (induction bs) (simp_all add: py_float_byte)

lemma byte_le_255: "unat (b::byte) \<le> 255"
  using unsigned_less [of b, where ?'a = nat] by simp

subsection \<open>The printed text\<close>

lemma str_nat_digits: "set (str_nat n) \<subseteq> set ''0123456789''"
proof (induction n rule: str_nat.induct)
  case (1 n)
  have d: "\<And>k. k < 10 \<Longrightarrow> ''0123456789'' ! k \<in> set ''0123456789''"
    by (rule nth_mem) simp
  show ?case
  proof (cases "n < 10")
    case True
    then show ?thesis using d [of n] by (subst str_nat.simps) simp
  next
    case False
    have "n mod 10 < 10" by simp
    from d [OF this] 1 [OF False] False show ?thesis by (subst str_nat.simps) simp
  qed
qed

lemma float_repr_nat: "float_repr (real n) = str_nat n @ ''.0''"
  by (simp add: float_repr_def)

lemma short_integral_nat: "n \<le> 255 \<Longrightarrow> short_integral (real n)"
proof -
  assume "n \<le> 255"
  then have "real n \<le> 255" by simp
  moreover have "(255::real) < 10 ^ 16" by simp
  ultimately have "\<bar>real n\<bar> < 10 ^ 16" by linarith
  moreover have "real_of_int \<lfloor>real n\<rfloor> = real n" by simp
  ultimately show ?thesis unfolding short_integral_def by (rule conjI [rotated])
qed

lemma float_repr_nat_chars: "set (float_repr (real n)) \<subseteq> set ''0123456789.''"
proof -
  have "set (float_repr (real n)) = set (str_nat n) \<union> set ''.0''"
    by (simp only: float_repr_nat set_append)
  moreover have "set ''.0'' \<subseteq> set ''0123456789.''" by simp
  moreover have "set ''0123456789'' \<subseteq> set ''0123456789.''" by (simp add: subset_iff)
  ultimately show ?thesis using str_nat_digits [of n] by blast
qed

lemma float_repr_nat_not_empty: "float_repr (real n) \<noteq> []"
  by (simp add: float_repr_nat)

lemma join_comma_chars:
  "set (join_comma ss) \<subseteq> (\<Union>s\<in>set ss. set s) \<union> set '', ''"
  by (induction ss rule: join_comma.induct) auto

lemma count_join_comma:
  assumes "\<And>s. s \<in> set ss \<Longrightarrow> CHR '','' \<notin> set s"
  shows "count_list (join_comma ss) (CHR '','') = length ss - 1"
  using assms by (induction ss rule: join_comma.induct) (simp_all add: count_list_0_iff)

lemma join_comma_empty_iff:
  assumes "\<And>s. s \<in> set ss \<Longrightarrow> s \<noteq> []"
  shows "join_comma ss = [] \<longleftrightarrow> ss = []"
  using assms by (induction ss rule: join_comma.induct) simp_all

lemma reprs_of_nats:
  assumes "s \<in> set (map float_repr (map real ns))"
  shows "set s \<subseteq> set ''0123456789.'' \<and> s \<noteq> []"
proof -
  from assms obtain n where "s = float_repr (real n)" by auto
  then show ?thesis using float_repr_nat_chars [of n] float_repr_nat_not_empty [of n] by simp
qed

lemma newline_not_in_list_repr: "newline \<notin> set (list_repr (map real ns))"
proof
  assume "newline \<in> set (list_repr (map real ns))"
  then have "newline \<in> set (join_comma (map float_repr (map real ns)))"
    by (simp add: list_repr_def newline_def)
  with join_comma_chars [of "map float_repr (map real ns)"]
  have "(\<exists>s\<in>set (map float_repr (map real ns)). newline \<in> set s) \<or> newline \<in> set '', ''"
    by blast
  then show False
  proof
    assume "\<exists>s\<in>set (map float_repr (map real ns)). newline \<in> set s"
    then obtain s where "s \<in> set (map float_repr (map real ns))" "newline \<in> set s" by blast
    with reprs_of_nats [of s ns] have "newline \<in> set ''0123456789.''" by blast
    then show False by (simp add: newline_def)
  next
    assume "newline \<in> set '', ''"
    then show False by (simp add: newline_def)
  qed
qed

lemma numbers_in_list_repr: "numbers_in (list_repr (map real ns)) = length ns"
proof -
  let ?ss = "map float_repr (map real ns)"
  have nocomma: "\<And>s. s \<in> set ?ss \<Longrightarrow> CHR '','' \<notin> set s"
  proof
    fix s assume "s \<in> set ?ss" "CHR '','' \<in> set s"
    with reprs_of_nats [of s ns] have "CHR '','' \<in> set ''0123456789.''" by blast
    then show False by simp
  qed
  have nonempty: "\<And>s. s \<in> set ?ss \<Longrightarrow> s \<noteq> []"
    using reprs_of_nats [of _ ns] by blast
  have c: "count_list (join_comma ?ss) (CHR '','') = length ns - 1"
    using count_join_comma [of ?ss, OF nocomma] by simp
  have e: "join_comma ?ss = [] \<longleftrightarrow> ns = []"
    using join_comma_empty_iff [of ?ss, OF nonempty] by simp
  show ?thesis
  proof (cases "ns = []")
    case True
    then show ?thesis by (simp add: numbers_in_def list_repr_def)
  next
    case False
    with e have "join_comma ?ss \<noteq> []" by simp
    then have "list_repr (map real ns) \<noteq> ''[]''"
      unfolding list_repr_def by simp
    with False c show ?thesis unfolding numbers_in_def list_repr_def by simp
  qed
qed

lemma byte_floats_nats: "map (\<lambda>b. real (unat (b::byte))) bs = map real (map unat bs)"
  by (simp only: map_map comp_def)

lemma list_repr_not_message: "list_repr xs \<noteq> not_found_msg q"
  by (simp add: list_repr_def not_found_msg_def)

subsection \<open>Reading back what was printed\<close>

lemma digit_value_nth:
  assumes "k < 10"
  shows "digit_value (''0123456789'' ! k) = Some k"
proof -
  from assms have "k = 0 \<or> k = 1 \<or> k = 2 \<or> k = 3 \<or> k = 4 \<or> k = 5 \<or> k = 6 \<or> k = 7
    \<or> k = 8 \<or> k = 9" by arith
  then show ?thesis by (elim disjE) (simp_all add: digit_value_def)
qed

lemma nth_digit_not_zero:
  assumes "0 < k" "k < 10"
  shows "''0123456789'' ! k \<noteq> CHR ''0''"
proof -
  from assms have "k = 1 \<or> k = 2 \<or> k = 3 \<or> k = 4 \<or> k = 5 \<or> k = 6 \<or> k = 7
    \<or> k = 8 \<or> k = 9" by arith
  then show ?thesis by (elim disjE) simp_all
qed

lemma read_digits_append:
  "read_digits a (s @ t) = (case read_digits a s of None \<Rightarrow> None | Some b \<Rightarrow> read_digits b t)"
  by (induction s arbitrary: a) (simp_all split: option.splits)

lemma read_digits_str_nat: "read_digits 0 (str_nat n) = Some n"
proof (induction n rule: str_nat.induct)
  case (1 n)
  show ?case
  proof (cases "n < 10")
    case True
    then show ?thesis
      by (subst str_nat.simps) (simp add: digit_value_nth)
  next
    case False
    have m: "n mod 10 < 10" by simp
    have "read_digits 0 (str_nat (n div 10) @ [''0123456789'' ! (n mod 10)])
            = read_digits (n div 10) [''0123456789'' ! (n mod 10)]"
      by (simp only: read_digits_append 1 [OF False] option.case)
    also have "\<dots> = Some (10 * (n div 10) + n mod 10)"
      by (simp add: digit_value_nth [OF m])
    also have "10 * (n div 10) + n mod 10 = n" by simp
    finally show ?thesis using False by (subst str_nat.simps) simp
  qed
qed

lemma str_nat_not_empty: "str_nat n \<noteq> []"
  by (subst str_nat.simps) simp

lemma str_nat_no_leading_zero: "0 < n \<Longrightarrow> hd (str_nat n) \<noteq> CHR ''0''"
proof (induction n rule: str_nat.induct)
  case (1 n)
  show ?case
  proof (cases "n < 10")
    case True
    then have eq: "str_nat n = [''0123456789'' ! n]"
      by (subst str_nat.simps) (simp only: if_True)
    from "1.prems" True have "''0123456789'' ! n \<noteq> CHR ''0''" by (rule nth_digit_not_zero)
    then show ?thesis unfolding eq list.sel .
  next
    case False
    then have "0 < n div 10" by simp
    with 1 False have "hd (str_nat (n div 10)) \<noteq> CHR ''0''" by blast
    with False show ?thesis
      by (subst str_nat.simps) (simp add: str_nat_not_empty)
  qed
qed

lemma str_nat_0: "str_nat 0 = ''0''"
  by (subst str_nat.simps) simp

lemma read_nat_str_nat: "read_nat (str_nat n) = Some n"
proof (cases "n = 0")
  case True
  then show ?thesis by (simp add: read_nat_def str_nat_0 digit_value_def)
next
  case False
  then have "hd (str_nat n) \<noteq> CHR ''0''" by (simp add: str_nat_no_leading_zero)
  then show ?thesis by (simp add: read_nat_def str_nat_not_empty read_digits_str_nat)
qed

lemma read_item_float_repr: "read_item (float_repr (real n)) = Some n"
  by (simp add: float_repr_nat read_item_def read_nat_str_nat)

lemma split_items_no_comma: "c \<noteq> CHR '','' \<Longrightarrow> split_items acc (c # cs) = split_items (acc @ [c]) cs"
  by (cases cs) simp_all

lemma split_items_item:
  "CHR '','' \<notin> set s \<Longrightarrow> split_items acc (s @ t) = split_items (acc @ s) t"
proof (induction s arbitrary: acc)
  case Nil
  show ?case by simp
next
  case (Cons c s)
  then have c: "c \<noteq> CHR '',''" and s: "CHR '','' \<notin> set s" by auto
  have "split_items acc ((c # s) @ t) = split_items (acc @ [c]) (s @ t)"
    using split_items_no_comma [OF c, of acc "s @ t"] by simp
  also have "\<dots> = split_items ((acc @ [c]) @ s) t" by (rule Cons.IH [OF s])
  finally show ?case by simp
qed

lemma split_items_join:
  assumes "\<And>s. s \<in> set (i # is) \<Longrightarrow> CHR '','' \<notin> set s"
  shows "split_items acc (join_comma (i # is)) = (acc @ i) # is"
  using assms
proof (induction "is" arbitrary: i acc)
  case Nil
  then have "CHR '','' \<notin> set i" by simp
  from split_items_item [OF this, of acc "[]"] show ?case by simp
next
  case (Cons j js)
  have i: "CHR '','' \<notin> set i" using Cons.prems by simp
  have rest: "split_items [] (join_comma (j # js)) = j # js"
    using Cons.IH [of j "[]"] Cons.prems by simp
  have "split_items acc (i @ '', '' @ join_comma (j # js))
          = split_items (acc @ i) ('', '' @ join_comma (j # js))"
    by (rule split_items_item [OF i])
  also have "\<dots> = (acc @ i) # split_items [] (join_comma (j # js))" by simp
  finally show ?case by (simp add: rest)
qed

lemma read_all_reprs: "read_all (map float_repr (map real ns)) = Some ns"
  by (induction ns) (simp_all add: read_item_float_repr)

lemma read_list_list_repr: "read_list (list_repr (map real ns)) = Some ns"
proof (cases ns)
  case Nil
  then show ?thesis by (simp add: read_list_def list_repr_def)
next
  case (Cons n ms)
  let ?is = "map float_repr (map real ns)"
  let ?J = "join_comma ?is"
  have nocomma: "\<And>s. s \<in> set ?is \<Longrightarrow> CHR '','' \<notin> set s"
  proof
    fix s assume "s \<in> set ?is" "CHR '','' \<in> set s"
    with reprs_of_nats [of s ns] have "CHR '','' \<in> set ''0123456789.''" by blast
    then show False by simp
  qed
  have nonempty: "\<And>s. s \<in> set ?is \<Longrightarrow> s \<noteq> []"
    using reprs_of_nats [of _ ns] by blast
  have J: "?J \<noteq> []"
    using join_comma_empty_iff [of ?is, OF nonempty] Cons by simp
  have split: "split_items [] ?J = ?is"
    using split_items_join [of "float_repr (real n)" "map float_repr (map real ms)" "[]"]
      nocomma Cons by simp
  have shape: "list_repr (map real ns) = CHR ''['' # ?J @ '']''"
    by (simp add: list_repr_def)
  have "read_list (CHR ''['' # ?J @ '']'') = read_all (split_items [] ?J)"
    using J by (simp add: read_list_def)
  then show ?thesis by (simp only: shape split read_all_reprs)
qed

subsection \<open>The four ways a run ends\<close>

lemma main_decoded:
  assumes "path_exists w p" "Image_open w p = Inr img" "tobytes w img = Inr bs"
  shows "main w [prog, p] =
           \<lparr>trace = [EvExists p, EvOpen p, EvTobytes,
                     EvPrint (list_repr (map (\<lambda>b. real (unat b)) bs))],
            result = Inr 0\<rparr>"
  using assms by (simp add: main_def float_list_bytes)

lemma main_open_fails:
  assumes "path_exists w p" "Image_open w p = Inl e"
  shows "main w [prog, p] = \<lparr>trace = [EvExists p, EvOpen p], result = Inl e\<rparr>"
  using assms by (simp add: main_def)

lemma main_tobytes_fails:
  assumes "path_exists w p" "Image_open w p = Inr img" "tobytes w img = Inl e"
  shows "main w [prog, p] = \<lparr>trace = [EvExists p, EvOpen p, EvTobytes], result = Inl e\<rparr>"
  using assms by (simp add: main_def)

lemma main_not_found:
  assumes "\<not> path_exists w p"
  shows "main w [prog, p] =
           \<lparr>trace = [EvExists p, EvPrint (not_found_msg p)], result = Inr 1\<rparr>"
  using assms by (simp add: main_def)

lemma main_usage:
  assumes "length args \<noteq> 1"
  shows "main w (prog # args) = \<lparr>trace = [EvPrint (usage_msg prog)], result = Inr 1\<rparr>"
  using assms by (simp add: main_def)

lemma main_cases:
  obtains
    (no_name) "argv = []" "main w argv = \<lparr>trace = [], result = Inl IndexError\<rparr>"
  | (usage) prog args where "argv = prog # args" "length args \<noteq> 1"
      "main w argv = \<lparr>trace = [EvPrint (usage_msg prog)], result = Inr 1\<rparr>"
  | (not_found) prog p where "argv = [prog, p]" "\<not> path_exists w p"
      "main w argv = \<lparr>trace = [EvExists p, EvPrint (not_found_msg p)], result = Inr 1\<rparr>"
  | (open_fails) prog p e where "argv = [prog, p]" "path_exists w p" "Image_open w p = Inl e"
      "main w argv = \<lparr>trace = [EvExists p, EvOpen p], result = Inl e\<rparr>"
  | (tobytes_fails) prog p img e where "argv = [prog, p]" "path_exists w p"
      "Image_open w p = Inr img" "tobytes w img = Inl e"
      "main w argv = \<lparr>trace = [EvExists p, EvOpen p, EvTobytes], result = Inl e\<rparr>"
  | (decoded) prog p img bs where "argv = [prog, p]" "path_exists w p"
      "Image_open w p = Inr img" "tobytes w img = Inr bs"
      "main w argv =
         \<lparr>trace = [EvExists p, EvOpen p, EvTobytes,
                   EvPrint (list_repr (map (\<lambda>b. real (unat b)) bs))],
          result = Inr 0\<rparr>"
proof (cases argv)
  case Nil
  then have "main w argv = \<lparr>trace = [], result = Inl IndexError\<rparr>" by (simp add: main_def)
  with Nil show ?thesis by (rule no_name)
next
  case (Cons prog args)
  show ?thesis
  proof (cases "length args = 1")
    case False
    with Cons show ?thesis using main_usage [OF False, of w prog] by (intro usage) simp_all
  next
    case True
    then obtain p where args: "args = [p]" by (cases args) auto
    with Cons have argv: "argv = [prog, p]" by simp
    show ?thesis
    proof (cases "path_exists w p")
      case False
      with argv show ?thesis using main_not_found [OF False, of prog] by (intro not_found) simp_all
    next
      case ex: True
      show ?thesis
      proof (cases "Image_open w p")
        case (Inl e)
        with argv ex show ?thesis using main_open_fails [OF ex Inl, of prog]
          by (intro open_fails) simp_all
      next
        case (Inr img)
        show ?thesis
        proof (cases "tobytes w img")
          case (Inl e)
          with argv ex Inr show ?thesis using main_tobytes_fails [OF ex Inr Inl, of prog]
            by (intro tobytes_fails) simp_all
        next
          case bs: (Inr bs)
          with argv ex Inr show ?thesis using main_decoded [OF ex Inr bs, of prog]
            by (intro decoded) simp_all
        qed
      qed
    qed
  qed
qed

section \<open>Argument count\<close>

text \<open>
  C3. Whenever the number of arguments after the program name is not exactly one (none, or
  two or more), the run prints the usage message \<^verbatim>\<open>Usage: <program> <image>\<close> with the
  program name substituted, prints nothing else, and returns 1, which is the exit status.
\<close>

theorem usage_on_wrong_argument_count:
  assumes "length args \<noteq> 1"
  shows "stdout (main w (prog # args)) = ''Usage: '' @ prog @ '' <image>'' @ [newline]
       \<and> result (main w (prog # args)) = Inr 1
       \<and> exit_status (main w (prog # args)) = 1"
  using assms by (simp add: main_def stdout_def exit_status_def usage_msg_def)

theorem usage_on_wrong_argument_count_witness:
  "length ([] :: string list) \<noteq> 1
   \<and> stdout (main sample_world [''img_to_bytes.py'']) = ''Usage: img_to_bytes.py <image>'' @ [newline]
   \<and> exit_status (main sample_world [''img_to_bytes.py'']) = 1
   \<and> length [''a.png'', ''b.png''] \<noteq> 1
   \<and> stdout (main sample_world [''img_to_bytes.py'', ''a.png'', ''b.png''])
       = ''Usage: img_to_bytes.py <image>'' @ [newline]
   \<and> result (main sample_world [''img_to_bytes.py'', ''a.png'', ''b.png'']) = Inr 1"
  using usage_on_wrong_argument_count [of "[]" sample_world "''img_to_bytes.py''"]
    usage_on_wrong_argument_count [of "[''a.png'', ''b.png'']" sample_world "''img_to_bytes.py''"]
  by simp

section \<open>The printed sequence\<close>

text \<open>
  C1, as stated, fails. The script prints one number for each byte that
  \<^verbatim>\<open>tobytes\<close> returns, and the pixel buffer of a valid image need not hold one byte
  per channel per pixel: the 8x1 image of mode \<^verbatim>\<open>1\<close> has 8 * 1 * 1 = 8 pixel values
  and prints one number, and the 1x1 image of mode \<^verbatim>\<open>I;16\<close> has one and prints two.
\<close>

theorem printed_length_counterexample:
  "path_exists pillow_world ''bw.png''
   \<and> Image_open pillow_world ''bw.png'' = Inr bw_image
   \<and> tobytes pillow_world bw_image = Inr [255]
   \<and> im_width bw_image * im_height bw_image * im_bands bw_image = 8
   \<and> stdout (main pillow_world [''img_to_bytes.py'', ''bw.png'']) = ''[255.0]'' @ [newline]
   \<and> numbers_in ''[255.0]'' = 1
   \<and> numbers_in ''[255.0]'' \<noteq> im_width bw_image * im_height bw_image * im_bands bw_image
   \<and> path_exists pillow_world ''deep.png''
   \<and> Image_open pillow_world ''deep.png'' = Inr deep_image
   \<and> tobytes pillow_world deep_image = Inr [52, 18]
   \<and> im_width deep_image * im_height deep_image * im_bands deep_image = 1
   \<and> stdout (main pillow_world [''img_to_bytes.py'', ''deep.png'']) = ''[52.0, 18.0]'' @ [newline]
   \<and> numbers_in ''[52.0, 18.0]'' = 2
   \<and> numbers_in ''[52.0, 18.0]'' \<noteq> im_width deep_image * im_height deep_image * im_bands deep_image"
proof -
  have e1: "path_exists pillow_world ''bw.png''" by (simp add: pillow_world_def)
  have o1: "Image_open pillow_world ''bw.png'' = Inr bw_image" by (simp add: pillow_world_def)
  have t1: "tobytes pillow_world bw_image = Inr [255]"
    by (simp add: pillow_world_def bw_image_def)
  have d1: "im_width bw_image * im_height bw_image * im_bands bw_image = 8"
    by (simp add: bw_image_def)
  have r1: "list_repr [255] = ''[255.0]''"
    by (simp add: list_repr_def float_repr_def str_nat.simps)
  have s1: "stdout (main pillow_world [''img_to_bytes.py'', ''bw.png'']) = ''[255.0]'' @ [newline]"
    by (simp add: main_decoded [OF e1 o1 t1] stdout_def r1)
  have n1: "numbers_in ''[255.0]'' = 1" by (simp add: numbers_in_def)
  have e2: "path_exists pillow_world ''deep.png''" by (simp add: pillow_world_def)
  have o2: "Image_open pillow_world ''deep.png'' = Inr deep_image"
    by (simp add: pillow_world_def)
  have t2: "tobytes pillow_world deep_image = Inr [52, 18]"
    by (simp add: pillow_world_def deep_image_def)
  have d2: "im_width deep_image * im_height deep_image * im_bands deep_image = 1"
    by (simp add: deep_image_def)
  have r2: "list_repr [52, 18] = ''[52.0, 18.0]''"
    by (simp add: list_repr_def float_repr_def str_nat.simps)
  have s2: "stdout (main pillow_world [''img_to_bytes.py'', ''deep.png''])
              = ''[52.0, 18.0]'' @ [newline]"
    by (simp add: main_decoded [OF e2 o2 t2] stdout_def r2)
  have n2: "numbers_in ''[52.0, 18.0]'' = 2" by (simp add: numbers_in_def)
  show ?thesis using e1 o1 t1 d1 s1 n1 e2 o2 t2 d2 s2 n2 by simp
qed

text \<open>
  C1, amended. For a valid image, the printed sequence has as many numbers as the pixel
  buffer that \<^verbatim>\<open>tobytes\<close> returns has bytes: the list handed to \<^verbatim>\<open>print\<close> has
  that length, the printed line has that many items, and reading the line back gives the
  bytes of the buffer in order. So the length is width * height * channels of the image
  when its buffer holds one byte per channel per pixel.
\<close>

theorem printed_length_is_buffer_length:
  fixes w :: "pil_image world"
  assumes "path_exists w p" and "Image_open w p = Inr img" and "tobytes w img = Inr bs"
  shows "stdout (main w [prog, p]) = list_repr (map (\<lambda>b. real (unat b)) bs) @ [newline]
       \<and> float_list bs = Inr (map (\<lambda>b. real (unat b)) bs)
       \<and> length (map (\<lambda>b. real (unat b)) bs) = length bs
       \<and> numbers_in (list_repr (map (\<lambda>b. real (unat b)) bs)) = length bs
       \<and> read_list (list_repr (map (\<lambda>b. real (unat b)) bs)) = Some (map unat bs)
       \<and> (length bs = im_width img * im_height img * im_bands img \<longrightarrow>
            numbers_in (list_repr (map (\<lambda>b. real (unat b)) bs))
              = im_width img * im_height img * im_bands img)"
proof -
  have out: "stdout (main w [prog, p]) = list_repr (map (\<lambda>b. real (unat b)) bs) @ [newline]"
    by (simp only: main_decoded [OF assms] stdout_def run.simps list.map printed.simps
          concat.simps append_Nil append_Nil2)
  have n: "numbers_in (list_repr (map (\<lambda>b. real (unat b)) bs)) = length bs"
    by (simp only: byte_floats_nats numbers_in_list_repr length_map)
  have r: "read_list (list_repr (map (\<lambda>b. real (unat b)) bs)) = Some (map unat bs)"
    by (simp only: byte_floats_nats read_list_list_repr)
  show ?thesis
  proof (intro conjI impI)
    show "float_list bs = Inr (map (\<lambda>b. real (unat b)) bs)" by (rule float_list_bytes)
    show "length (map (\<lambda>b. real (unat b)) bs) = length bs" by (rule length_map)
    show "numbers_in (list_repr (map (\<lambda>b. real (unat b)) bs))
            = im_width img * im_height img * im_bands img"
      if "length bs = im_width img * im_height img * im_bands img"
      using n that by (rule trans)
  qed (rule out n r)+
qed

theorem printed_length_is_buffer_length_witness:
  "path_exists pillow_world ''rgb.png''
   \<and> Image_open pillow_world ''rgb.png'' = Inr rgb_image
   \<and> tobytes pillow_world rgb_image = Inr [255, 0, 200, 1, 2, 3]
   \<and> length [255, 0, 200, 1, 2, 3 :: byte] = im_width rgb_image * im_height rgb_image * im_bands rgb_image
   \<and> stdout (main pillow_world [''img_to_bytes.py'', ''rgb.png''])
       = ''[255.0, 0.0, 200.0, 1.0, 2.0, 3.0]'' @ [newline]
   \<and> numbers_in ''[255.0, 0.0, 200.0, 1.0, 2.0, 3.0]'' = 6
   \<and> numbers_in ''[255.0, 0.0, 200.0, 1.0, 2.0, 3.0]''
       = im_width rgb_image * im_height rgb_image * im_bands rgb_image
   \<and> read_list ''[255.0, 0.0, 200.0, 1.0, 2.0, 3.0]'' = Some [255, 0, 200, 1, 2, 3]"
proof -
  have e: "path_exists pillow_world ''rgb.png''" by (simp add: pillow_world_def)
  have o: "Image_open pillow_world ''rgb.png'' = Inr rgb_image" by (simp add: pillow_world_def)
  have t: "tobytes pillow_world rgb_image = Inr [255, 0, 200, 1, 2, 3]"
    by (simp add: pillow_world_def rgb_image_def)
  have l: "length [255, 0, 200, 1, 2, 3 :: byte]
             = im_width rgb_image * im_height rgb_image * im_bands rgb_image"
    by (simp add: rgb_image_def)
  have d: "im_width rgb_image * im_height rgb_image * im_bands rgb_image = 6"
    by (simp add: rgb_image_def)
  have u: "map unat [255, 0, 200, 1, 2, 3 :: byte] = [255, 0, 200, 1, 2, 3]" by simp
  have r: "list_repr (map (\<lambda>b. real (unat b)) [255, 0, 200, 1, 2, 3 :: byte])
             = ''[255.0, 0.0, 200.0, 1.0, 2.0, 3.0]''"
    by (simp add: list_repr_def float_repr_def str_nat.simps)
  from printed_length_is_buffer_length [OF e o t, of "''img_to_bytes.py''"] e o t l
  show ?thesis unfolding r u d by simp
qed

section \<open>Bytes become floats\<close>

text \<open>
  C2. Converting a byte of the pixel buffer to a float keeps its value exactly: byte \<open>b\<close>
  becomes the float with the value of \<open>b\<close>, which lies between 0.0 and 255.0 and prints
  as the digits of \<open>b\<close> followed by \<^verbatim>\<open>.0\<close> (200 prints as \<^verbatim>\<open>200.0\<close>). So
  the list comprehension never raises, and every value of the list a successful run
  prints lies in [0.0, 255.0].
\<close>

theorem byte_to_float_exact:
  fixes b :: byte
  shows "py_float (uint b) = Inr (real (unat b))
       \<and> 0 \<le> real (unat b) \<and> real (unat b) \<le> 255
       \<and> short_integral (real (unat b))
       \<and> float_repr (real (unat b)) = str_nat (unat b) @ ''.0''
       \<and> float_list bs = Inr (map (\<lambda>b. real (unat b)) bs)
       \<and> (path_exists w p \<and> Image_open w p = Inr img \<and> tobytes w img = Inr bs \<longrightarrow>
            (\<exists>xs. trace (main w [prog, p])
                    = [EvExists p, EvOpen p, EvTobytes, EvPrint (list_repr xs)]
                  \<and> length xs = length bs
                  \<and> (\<forall>i<length bs. xs ! i = real (unat (bs ! i)))
                  \<and> (\<forall>x\<in>set xs. 0 \<le> x \<and> x \<le> 255)))"
proof -
  have le: "real (unat c) \<le> 255" for c :: byte
  proof -
    have "real (unat c) \<le> real 255" using byte_le_255 [of c] by (simp only: of_nat_le_iff)
    then show ?thesis by simp
  qed
  have run: "\<exists>xs. trace (main w [prog, p])
                    = [EvExists p, EvOpen p, EvTobytes, EvPrint (list_repr xs)]
                  \<and> length xs = length bs
                  \<and> (\<forall>i<length bs. xs ! i = real (unat (bs ! i)))
                  \<and> (\<forall>x\<in>set xs. 0 \<le> x \<and> x \<le> 255)"
    if h: "path_exists w p \<and> Image_open w p = Inr img \<and> tobytes w img = Inr bs"
  proof (intro exI conjI)
    show "trace (main w [prog, p])
            = [EvExists p, EvOpen p, EvTobytes, EvPrint (list_repr (map (\<lambda>b. real (unat b)) bs))]"
      using h by (simp only: main_decoded run.simps)
    show "length (map (\<lambda>b. real (unat b)) bs) = length bs" by (rule length_map)
    show "\<forall>i<length bs. map (\<lambda>b. real (unat b)) bs ! i = real (unat (bs ! i))"
      by (intro allI impI) (rule nth_map)
    show "\<forall>x\<in>set (map (\<lambda>b. real (unat b)) bs). 0 \<le> x \<and> x \<le> 255"
    proof
      fix x assume "x \<in> set (map (\<lambda>b. real (unat b)) bs)"
      then obtain c :: byte where "x = real (unat c)" unfolding set_map by blast
      then show "0 \<le> x \<and> x \<le> 255" using le [of c] by (simp only: of_nat_0_le_iff simp_thms)
    qed
  qed
  show ?thesis
  proof (intro conjI impI)
    show "py_float (uint b) = Inr (real (unat b))" by (rule py_float_byte)
    show "0 \<le> real (unat b)" by (rule of_nat_0_le_iff)
    show "real (unat b) \<le> 255" by (rule le)
    show "short_integral (real (unat b))" by (rule short_integral_nat [OF byte_le_255])
    show "float_repr (real (unat b)) = str_nat (unat b) @ ''.0''" by (rule float_repr_nat)
    show "float_list bs = Inr (map (\<lambda>b. real (unat b)) bs)" by (rule float_list_bytes)
  qed (rule run)
qed

theorem byte_to_float_exact_witness:
  "py_float (uint (200 :: byte)) = Inr 200
   \<and> float_repr 200 = ''200.0''
   \<and> path_exists sample_world ''gray.png''
   \<and> Image_open sample_world ''gray.png'' = Inr ''gray.png''
   \<and> tobytes sample_world ''gray.png'' = Inr [128]
   \<and> (\<exists>xs. trace (main sample_world [''img_to_bytes.py'', ''gray.png''])
             = [EvExists ''gray.png'', EvOpen ''gray.png'', EvTobytes, EvPrint (list_repr xs)]
           \<and> xs ! 0 = 128
           \<and> (\<forall>x\<in>set xs. 0 \<le> x \<and> x \<le> 255))"
proof -
  have h: "path_exists sample_world ''gray.png''
           \<and> Image_open sample_world ''gray.png'' = Inr ''gray.png''
           \<and> tobytes sample_world ''gray.png'' = Inr [128]"
    by (simp add: sample_world_def)
  have s: "str_nat 200 = ''200''" by (simp add: str_nat.simps)
  from byte_to_float_exact
    [of 200 "[128]" sample_world "''gray.png''" "''gray.png''" "''img_to_bytes.py''"] h
  show ?thesis by (auto simp: s)
qed

section \<open>A missing file\<close>

text \<open>
  C4. With exactly one argument that names a path which does not exist, the run prints
  \<^verbatim>\<open>Error: <path> not found.\<close> with the given path substituted, prints nothing else,
  and returns 1, which is the exit status.
\<close>

theorem not_found_on_missing_path:
  assumes "\<not> path_exists w p"
  shows "stdout (main w [prog, p]) = ''Error: '' @ p @ '' not found.'' @ [newline]
       \<and> result (main w [prog, p]) = Inr 1
       \<and> exit_status (main w [prog, p]) = 1"
  using assms by (simp add: main_def stdout_def exit_status_def not_found_msg_def)

theorem not_found_on_missing_path_witness:
  "\<not> path_exists sample_world ''missing.png''
   \<and> stdout (main sample_world [''img_to_bytes.py'', ''missing.png''])
       = ''Error: missing.png not found.'' @ [newline]
   \<and> exit_status (main sample_world [''img_to_bytes.py'', ''missing.png'']) = 1"
proof -
  have h: "\<not> path_exists sample_world ''missing.png''" by (simp add: sample_world_def)
  from not_found_on_missing_path [OF h, of "''img_to_bytes.py''"] h
  show ?thesis by simp
qed

section \<open>A decodable image\<close>

text \<open>
  C5. With one argument that names an existing image which decodes, the run prints the
  bytes as one line and then returns 0. The line is an opening bracket, the numbers
  separated by a comma and a space, each the decimal digits of a byte followed by
  \<^verbatim>\<open>.0\<close>, and a closing bracket; the output ends with its only newline; and reading
  the line back as a list literal gives exactly the bytes of the pixel buffer, in order.
  A 1x1 greyscale image whose pixel is 128 prints \<^verbatim>\<open>[128.0]\<close>.
\<close>

theorem prints_list_literal_and_returns_0:
  assumes "path_exists w p" and "Image_open w p = Inr img" and "tobytes w img = Inr bs"
  shows "stdout (main w [prog, p])
           = ''['' @ join_comma (map (\<lambda>b. str_nat (unat b) @ ''.0'') bs) @ '']'' @ [newline]
       \<and> count_list (stdout (main w [prog, p])) newline = 1
       \<and> last (stdout (main w [prog, p])) = newline
       \<and> read_list (butlast (stdout (main w [prog, p]))) = Some (map unat bs)
       \<and> numbers_in (butlast (stdout (main w [prog, p]))) = length bs
       \<and> result (main w [prog, p]) = Inr 0
       \<and> exit_status (main w [prog, p]) = 0"
proof -
  let ?line = "list_repr (map (\<lambda>b. real (unat b)) bs)"
  have m: "main w [prog, p]
             = \<lparr>trace = [EvExists p, EvOpen p, EvTobytes, EvPrint ?line], result = Inr 0\<rparr>"
    by (rule main_decoded [OF assms])
  have out: "stdout (main w [prog, p]) = ?line @ [newline]"
    by (simp only: m stdout_def run.simps list.map printed.simps concat.simps
          append_Nil append_Nil2)
  have "map float_repr (map (\<lambda>b. real (unat b)) bs) = map (\<lambda>b. str_nat (unat b) @ ''.0'') bs"
    by (simp only: map_map comp_def float_repr_nat)
  then have line: "?line = ''['' @ join_comma (map (\<lambda>b. str_nat (unat b) @ ''.0'') bs) @ '']''"
    by (simp only: list_repr_def)
  have "newline \<notin> set ?line"
    unfolding byte_floats_nats by (rule newline_not_in_list_repr)
  then have "count_list ?line newline = 0" by (rule iffD2 [OF count_list_0_iff])
  then have one: "count_list (stdout (main w [prog, p])) newline = 1"
    by (simp add: out)
  have shape: "stdout (main w [prog, p])
          = ''['' @ join_comma (map (\<lambda>b. str_nat (unat b) @ ''.0'') bs) @ '']'' @ [newline]"
    using out line by simp
  have lst: "last (stdout (main w [prog, p])) = newline"
    by (simp only: out last_snoc)
  have bl: "butlast (stdout (main w [prog, p])) = ?line"
    by (simp only: out butlast_snoc)
  have rd: "read_list (butlast (stdout (main w [prog, p]))) = Some (map unat bs)"
    by (simp only: bl byte_floats_nats read_list_list_repr)
  have nm: "numbers_in (butlast (stdout (main w [prog, p]))) = length bs"
    by (simp only: bl byte_floats_nats numbers_in_list_repr length_map)
  have res: "result (main w [prog, p]) = Inr 0" by (simp only: m run.simps)
  have ex: "exit_status (main w [prog, p]) = 0" by (simp add: m exit_status_def)
  from shape one lst rd nm res ex show ?thesis by blast
qed

theorem prints_list_literal_and_returns_0_witness:
  "path_exists sample_world ''gray.png''
   \<and> Image_open sample_world ''gray.png'' = Inr ''gray.png''
   \<and> tobytes sample_world ''gray.png'' = Inr [128]
   \<and> stdout (main sample_world [''img_to_bytes.py'', ''gray.png'']) = ''[128.0]'' @ [newline]
   \<and> read_list ''[128.0]'' = Some [128]
   \<and> exit_status (main sample_world [''img_to_bytes.py'', ''gray.png'']) = 0
   \<and> path_exists sample_world ''rgb.png''
   \<and> Image_open sample_world ''rgb.png'' = Inr ''rgb.png''
   \<and> tobytes sample_world ''rgb.png'' = Inr [255, 0, 200, 1, 2, 3]
   \<and> stdout (main sample_world [''img_to_bytes.py'', ''rgb.png''])
       = ''[255.0, 0.0, 200.0, 1.0, 2.0, 3.0]'' @ [newline]
   \<and> read_list ''[255.0, 0.0, 200.0, 1.0, 2.0, 3.0]'' = Some [255, 0, 200, 1, 2, 3]
   \<and> numbers_in ''[255.0, 0.0, 200.0, 1.0, 2.0, 3.0]'' = 6
   \<and> exit_status (main sample_world [''img_to_bytes.py'', ''rgb.png'']) = 0"
proof -
  have e1: "path_exists sample_world ''gray.png''" by (simp add: sample_world_def)
  have o1: "Image_open sample_world ''gray.png'' = Inr ''gray.png''"
    by (simp add: sample_world_def)
  have t1: "tobytes sample_world ''gray.png'' = Inr [128]" by (simp add: sample_world_def)
  have e2: "path_exists sample_world ''rgb.png''" by (simp add: sample_world_def)
  have o2: "Image_open sample_world ''rgb.png'' = Inr ''rgb.png''"
    by (simp add: sample_world_def)
  have t2: "tobytes sample_world ''rgb.png'' = Inr [255, 0, 200, 1, 2, 3]"
    by (simp add: sample_world_def)
  have s: "str_nat 128 = ''128''" "str_nat 255 = ''255''" "str_nat 200 = ''200''"
    "str_nat 0 = ''0''" "str_nat (Suc 0) = ''1''" "str_nat 2 = ''2''" "str_nat 3 = ''3''"
    by (simp_all add: str_nat.simps)
  have g: "stdout (main sample_world [''img_to_bytes.py'', ''gray.png'']) = ''[128.0]'' @ [newline]"
    using prints_list_literal_and_returns_0 [OF e1 o1 t1, of "''img_to_bytes.py''"]
    by (simp add: s)
  have c: "stdout (main sample_world [''img_to_bytes.py'', ''rgb.png''])
             = ''[255.0, 0.0, 200.0, 1.0, 2.0, 3.0]'' @ [newline]"
    using prints_list_literal_and_returns_0 [OF e2 o2 t2, of "''img_to_bytes.py''"]
    by (simp add: s)
  from prints_list_literal_and_returns_0 [OF e1 o1 t1, of "''img_to_bytes.py''"]
    prints_list_literal_and_returns_0 [OF e2 o2 t2, of "''img_to_bytes.py''"]
    e1 o1 t1 e2 o2 t2
  show ?thesis unfolding g c by simp
qed

section \<open>A file that does not decode\<close>

text \<open>
  C6. With one argument that names an existing path which is not a decodable image, so
  that opening it or reading its pixel data raises, the script does not catch the
  failure: \<^verbatim>\<open>main\<close> ends with that exception, the process ends with a non-zero
  status, and nothing is printed on standard output, neither the usage message nor the
  not-found message.
\<close>

theorem decode_failure_is_uncaught:
  assumes "path_exists w p"
    and "Image_open w p = Inl e \<or> (Image_open w p = Inr img \<and> tobytes w img = Inl e)"
  shows "result (main w [prog, p]) = Inl e
       \<and> stdout (main w [prog, p]) = []
       \<and> exit_status (main w [prog, p]) \<noteq> 0
       \<and> EvPrint (usage_msg prog) \<notin> set (trace (main w [prog, p]))
       \<and> EvPrint (not_found_msg p) \<notin> set (trace (main w [prog, p]))"
  using assms(2)
proof
  assume "Image_open w p = Inl e"
  then show ?thesis
    by (simp add: main_open_fails [OF assms(1)] stdout_def exit_status_def)
next
  assume "Image_open w p = Inr img \<and> tobytes w img = Inl e"
  then show ?thesis
    by (simp add: main_tobytes_fails [OF assms(1)] stdout_def exit_status_def)
qed

theorem decode_failure_is_uncaught_witness:
  "path_exists sample_world ''notes.txt''
   \<and> Image_open sample_world ''notes.txt'' = Inl UnidentifiedImageError
   \<and> result (main sample_world [''img_to_bytes.py'', ''notes.txt'']) = Inl UnidentifiedImageError
   \<and> stdout (main sample_world [''img_to_bytes.py'', ''notes.txt'']) = []
   \<and> exit_status (main sample_world [''img_to_bytes.py'', ''notes.txt'']) \<noteq> 0
   \<and> path_exists sample_world ''cut.png''
   \<and> Image_open sample_world ''cut.png'' = Inr ''cut.png''
   \<and> tobytes sample_world ''cut.png'' = Inl OSError
   \<and> result (main sample_world [''img_to_bytes.py'', ''cut.png'']) = Inl OSError
   \<and> stdout (main sample_world [''img_to_bytes.py'', ''cut.png'']) = []"
proof -
  have e1: "path_exists sample_world ''notes.txt''" by (simp add: sample_world_def)
  have o1: "Image_open sample_world ''notes.txt'' = Inl UnidentifiedImageError"
    by (simp add: sample_world_def)
  have e2: "path_exists sample_world ''cut.png''" by (simp add: sample_world_def)
  have o2: "Image_open sample_world ''cut.png'' = Inr ''cut.png''"
    by (simp add: sample_world_def)
  have t2: "tobytes sample_world ''cut.png'' = Inl OSError" by (simp add: sample_world_def)
  from decode_failure_is_uncaught [OF e1 disjI1, OF o1, of "''img_to_bytes.py''"]
    decode_failure_is_uncaught [OF e2 disjI2, OF conjI, OF o2 t2, of "''img_to_bytes.py''"]
    e1 o1 e2 o2 t2
  show ?thesis by blast
qed

section \<open>Two runs\<close>

text \<open>
  C7. The script keeps nothing from one run to the next: a run is a function of its
  argument list and of what the outside world holds at the named path. Two runs with the
  same argument list, in worlds that agree on whether the named path exists, on what
  opening it gives and on the pixel data of the image it opens to, do the same things,
  print the same output and end with the same exit status, whatever else differs.
\<close>

theorem run_depends_only_on_named_file:
  assumes "length argv = 2 \<longrightarrow>
             path_exists w1 (argv ! 1) = path_exists w2 (argv ! 1)
           \<and> Image_open w1 (argv ! 1) = Image_open w2 (argv ! 1)
           \<and> (\<forall>img. Image_open w1 (argv ! 1) = Inr img \<longrightarrow> tobytes w1 img = tobytes w2 img)"
  shows "main w1 argv = main w2 argv
       \<and> stdout (main w1 argv) = stdout (main w2 argv)
       \<and> exit_status (main w1 argv) = exit_status (main w2 argv)"
proof -
  have "main w1 argv = main w2 argv"
  proof (cases "length argv = 2")
    case False
    then show ?thesis by (simp add: main_def)
  next
    case True
    with assms show ?thesis
      by (simp add: main_def Let_def split: sum.splits)
  qed
  then show ?thesis by simp
qed

theorem run_depends_only_on_named_file_witness:
  "length [''img_to_bytes.py'', ''gray.png''] = 2
   \<and> path_exists sample_world ''gray.png'' = path_exists other_world ''gray.png''
   \<and> Image_open sample_world ''gray.png'' = Inr ''gray.png''
   \<and> Image_open other_world ''gray.png'' = Inr ''gray.png''
   \<and> tobytes sample_world ''gray.png'' = tobytes other_world ''gray.png''
   \<and> path_exists sample_world ''rgb.png'' \<noteq> path_exists other_world ''rgb.png''
   \<and> main sample_world [''img_to_bytes.py'', ''gray.png'']
       = main other_world [''img_to_bytes.py'', ''gray.png'']
   \<and> stdout (main sample_world [''img_to_bytes.py'', ''gray.png''])
       = stdout (main other_world [''img_to_bytes.py'', ''gray.png''])
   \<and> exit_status (main sample_world [''img_to_bytes.py'', ''gray.png''])
       = exit_status (main other_world [''img_to_bytes.py'', ''gray.png''])"
proof -
  have e: "path_exists sample_world ''gray.png'' = path_exists other_world ''gray.png''"
    by (simp add: sample_world_def other_world_def)
  have o1: "Image_open sample_world ''gray.png'' = Inr ''gray.png''"
    by (simp add: sample_world_def)
  have o2: "Image_open other_world ''gray.png'' = Inr ''gray.png''"
    by (simp add: other_world_def)
  have t: "tobytes sample_world ''gray.png'' = tobytes other_world ''gray.png''"
    by (simp add: sample_world_def other_world_def)
  have d: "path_exists sample_world ''rgb.png'' \<noteq> path_exists other_world ''rgb.png''"
    by (simp add: sample_world_def other_world_def)
  have h: "length [''img_to_bytes.py'', ''gray.png''] = 2 \<longrightarrow>
       path_exists sample_world ([''img_to_bytes.py'', ''gray.png''] ! 1)
         = path_exists other_world ([''img_to_bytes.py'', ''gray.png''] ! 1)
     \<and> Image_open sample_world ([''img_to_bytes.py'', ''gray.png''] ! 1)
         = Image_open other_world ([''img_to_bytes.py'', ''gray.png''] ! 1)
     \<and> (\<forall>img. Image_open sample_world ([''img_to_bytes.py'', ''gray.png''] ! 1) = Inr img
           \<longrightarrow> tobytes sample_world img = tobytes other_world img)"
    using e o1 o2 t by simp
  from run_depends_only_on_named_file [OF h] e o1 o2 t d show ?thesis by simp
qed

section \<open>The order of the steps\<close>



section \<open>Exit codes\<close>

text \<open>
  C9. When \<^verbatim>\<open>main\<close> returns rather than ending with an exception, the value it
  returns is 0 or 1, and that value is the exit status of the process.
\<close>

theorem normal_return_is_0_or_1:
  assumes "result (main w argv) = Inr rc"
  shows "(rc = 0 \<or> rc = 1) \<and> exit_status (main w argv) = rc"
  using assms by (cases rule: main_cases [of argv w]) (auto simp: exit_status_def)

theorem normal_return_is_0_or_1_witness:
  "result (main sample_world [''img_to_bytes.py'', ''gray.png'']) = Inr 0
   \<and> exit_status (main sample_world [''img_to_bytes.py'', ''gray.png'']) = 0
   \<and> result (main sample_world [''img_to_bytes.py'', ''missing.png'']) = Inr 1
   \<and> exit_status (main sample_world [''img_to_bytes.py'', ''missing.png'']) = 1"
proof -
  have a: "result (main sample_world [''img_to_bytes.py'', ''gray.png'']) = Inr 0"
    by (simp add: main_def Let_def sample_world_def float_list_bytes)
  have b: "result (main sample_world [''img_to_bytes.py'', ''missing.png'']) = Inr 1"
    by (simp add: main_def Let_def sample_world_def)
  from normal_return_is_0_or_1 [OF a] normal_return_is_0_or_1 [OF b] a b
  show ?thesis by simp
qed

section \<open>An existing path that is not an image\<close>

text \<open>
  C10. With one argument that names a path which exists, whatever it is (a directory, for
  example), the existence check passes: the run goes on to open the path with the image
  library, it never prints a not-found message and never returns 1, and if opening
  raises, that exception leaves \<^verbatim>\<open>main\<close> uncaught with nothing printed.
\<close>

theorem existing_path_reaches_decoder:
  assumes "path_exists w p"
  shows "EvOpen p \<in> set (trace (main w [prog, p]))
       \<and> decode_attempted (main w [prog, p])
       \<and> EvPrint (not_found_msg q) \<notin> set (trace (main w [prog, p]))
       \<and> result (main w [prog, p]) \<noteq> Inr 1
       \<and> (Image_open w p = Inl e \<longrightarrow>
            result (main w [prog, p]) = Inl e \<and> stdout (main w [prog, p]) = [])"
proof (cases "Image_open w p")
  case (Inl e')
  then show ?thesis
    by (simp add: main_open_fails [OF assms] decode_attempted_def stdout_def)
next
  case (Inr img)
  show ?thesis
  proof (cases "tobytes w img")
    case (Inl e')
    with Inr show ?thesis
      by (simp add: main_tobytes_fails [OF assms] decode_attempted_def)
  next
    case bs: (Inr bs)
    with Inr show ?thesis
      by (simp add: main_decoded [OF assms] decode_attempted_def
            list_repr_not_message list_repr_not_message [THEN not_sym])
  qed
qed

theorem existing_path_reaches_decoder_witness:
  "path_exists sample_world ''dir''
   \<and> Image_open sample_world ''dir'' = Inl IsADirectoryError
   \<and> EvOpen ''dir'' \<in> set (trace (main sample_world [''img_to_bytes.py'', ''dir'']))
   \<and> EvPrint (not_found_msg ''dir'') \<notin> set (trace (main sample_world [''img_to_bytes.py'', ''dir'']))
   \<and> result (main sample_world [''img_to_bytes.py'', ''dir'']) = Inl IsADirectoryError
   \<and> stdout (main sample_world [''img_to_bytes.py'', ''dir'']) = []"
proof -
  have e: "path_exists sample_world ''dir''" by (simp add: sample_world_def)
  have o: "Image_open sample_world ''dir'' = Inl IsADirectoryError"
    by (simp add: sample_world_def)
  from existing_path_reaches_decoder
    [OF e, of "''img_to_bytes.py''" "''dir''" IsADirectoryError] e o
  show ?thesis by blast
qed


end
